theory Spec2Isabelle
  imports Main "HOL-Library.Sublist"
begin

unbundle bit_operations_syntax

section \<open>The gamepad sink and the values sent to it\<close>

text \<open>
  Modelled from the spec: the enumeration \<^verbatim>\<open>NSButton\<close> of the module
  \<^verbatim>\<open>nsgpadserial\<close>, which nsac.py imports and which is not part of the sources.
  The constructors are the members nsac.py names.
\<close>

datatype ns_button =
    NSButton_A | NSButton_B | NSButton_X | NSButton_Y
  | NSButton_LEFT_TRIGGER | NSButton_RIGHT_TRIGGER
  | NSButton_LEFT_THROTTLE | NSButton_RIGHT_THROTTLE
  | NSButton_MINUS | NSButton_PLUS | NSButton_HOME | NSButton_CAPTURE
  | NSButton_LEFT_STICK | NSButton_RIGHT_STICK

text \<open>
  Modelled from the spec: the enumeration \<^verbatim>\<open>NSDPad\<close> of the same module, with
  the nine directions nsac.py names.
\<close>

datatype ns_dpad =
    NSDPad_CENTERED | NSDPad_UP | NSDPad_UP_RIGHT | NSDPad_RIGHT | NSDPad_DOWN_RIGHT
  | NSDPad_DOWN | NSDPad_DOWN_LEFT | NSDPad_LEFT | NSDPad_UP_LEFT

text \<open>
  An element of a \<^verbatim>\<open>BUTTON_MAP\<close> array, and the argument of \<^verbatim>\<open>NSG.press\<close>
  and \<^verbatim>\<open>NSG.release\<close>: a member of \<^verbatim>\<open>NSButton\<close>, or an integer the source
  writes as a literal (255, 14, 15) or takes from the event (the HoriPad decoder).
\<close>

datatype button_out = NSButton ns_button | Code nat

text \<open>The calls a decoder makes on the shared object \<^verbatim>\<open>NSG\<close>, in the order made.\<close>

datatype sink_call =
    Press button_out
  | Release button_out
  | LeftXAxis int
  | LeftYAxis int
  | RightXAxis int
  | RightYAxis int
  | DPadXAxis int
  | DPadYAxis int
  | DPad ns_dpad

datatype error = IndexError | StructError | ValueError | OSError | UnicodeDecodeError

section \<open>Events\<close>

text \<open>
  The tuple \<^verbatim>\<open>timestamp, value, type, number = unpack('IhBB', evbuf)\<close>: the
  timestamp and the two bytes are unsigned, the value is a signed 16-bit number held in a
  Python integer.
\<close>

record event =
  ev_timestamp :: nat
  ev_value :: int
  ev_type :: nat
  ev_number :: nat

text \<open>
  What one \<^verbatim>\<open>jsdev.read(8)\<close> does: it raises, it returns an empty buffer, it
  returns a buffer that is not empty and not 8 bytes long (on which \<^verbatim>\<open>unpack\<close>
  raises), or it returns a record.
\<close>

datatype read_result = ReadRaises | ReadEmpty | ReadShort | ReadRecord event

text \<open>How a decoder thread stands after a finite run of reads.\<close>

datatype thread_end = Blocked_on_read | Returned | Raised error

section \<open>Axis quantizer\<close>

text \<open>The expression \<^verbatim>\<open>((value + 32768) >> 8)\<close> every decoder computes.\<close>

definition quantize :: "int \<Rightarrow> int" where
  "quantize v = drop_bit 8 (v + 32768)"

section \<open>Direction pad table\<close>

definition BUTTONS_MAP_DPAD :: "ns_dpad list" where
  "BUTTONS_MAP_DPAD =
    [ NSDPad_CENTERED,    \<comment> \<open>0000\<close>
      NSDPad_UP,          \<comment> \<open>0001\<close>
      NSDPad_RIGHT,       \<comment> \<open>0010\<close>
      NSDPad_UP_RIGHT,    \<comment> \<open>0011\<close>
      NSDPad_DOWN,        \<comment> \<open>0100\<close>
      NSDPad_CENTERED,    \<comment> \<open>0101\<close>
      NSDPad_DOWN_RIGHT,  \<comment> \<open>0110\<close>
      NSDPad_CENTERED,    \<comment> \<open>0111\<close>
      NSDPad_LEFT,        \<comment> \<open>1000\<close>
      NSDPad_UP_LEFT,     \<comment> \<open>1001\<close>
      NSDPad_CENTERED,    \<comment> \<open>1010\<close>
      NSDPad_CENTERED,    \<comment> \<open>1011\<close>
      NSDPad_DOWN_LEFT,   \<comment> \<open>1100\<close>
      NSDPad_CENTERED,    \<comment> \<open>1101\<close>
      NSDPad_CENTERED,    \<comment> \<open>1110\<close>
      NSDPad_CENTERED     \<comment> \<open>1111\<close>
    ]"

text \<open>
  Python indexing of an array, \<^verbatim>\<open>xs[i]\<close>: a negative index counts from the end,
  an index outside the array raises IndexError.
\<close>

definition index :: "'a list \<Rightarrow> int \<Rightarrow> error + 'a" where
  "index xs i =
    (if 0 \<le> i \<and> i < int (length xs) then Inr (xs ! nat i)
     else if i < 0 \<and> - int (length xs) \<le> i then Inr (xs ! nat (int (length xs) + i))
     else Inl IndexError)"

text \<open>The combiner: \<^verbatim>\<open>BUTTONS_MAP_DPAD[dpad_bits]\<close>.\<close>

definition dpad_combine :: "int \<Rightarrow> error + ns_dpad" where
  "dpad_combine dpad_bits = index BUTTONS_MAP_DPAD dpad_bits"

section \<open>The decode loop\<close>

text \<open>
  The loop every decoder runs, over the results of its successive reads:
  \<^verbatim>\<open>while True: try: evbuf = jsdev.read(8) except: jsdev.close(); break\<close>, then
  the body under \<^verbatim>\<open>if evbuf:\<close>. The body is the parameter \<open>handle\<close>; an
  exception it raises is caught nowhere and ends the thread. The result is how the thread
  stands and the sink calls it made, in order.
\<close>

fun decode_loop ::
  "('s \<Rightarrow> event \<Rightarrow> error + 's \<times> sink_call list) \<Rightarrow> 's \<Rightarrow> read_result list
    \<Rightarrow> thread_end \<times> sink_call list" where
  "decode_loop handle s [] = (Blocked_on_read, [])"
| "decode_loop handle s (ReadRaises # rs) = (Returned, [])"
| "decode_loop handle s (ReadEmpty # rs) = decode_loop handle s rs"
| "decode_loop handle s (ReadShort # rs) = (Raised StructError, [])"
| "decode_loop handle s (ReadRecord e # rs) =
    (case handle s e of
       Inl err \<Rightarrow> (Raised err, [])
     | Inr (s', out) \<Rightarrow>
         (case decode_loop handle s' rs of (fin, out') \<Rightarrow> (fin, out @ out')))"

text \<open>
  The locals of a decoder once it has consumed the given reads and waits for the next
  one; \<open>None\<close> when the thread has ended before.
\<close>

fun loop_state ::
  "('s \<Rightarrow> event \<Rightarrow> error + 's \<times> sink_call list) \<Rightarrow> 's \<Rightarrow> read_result list \<Rightarrow> 's option" where
  "loop_state handle s [] = Some s"
| "loop_state handle s (ReadRaises # rs) = None"
| "loop_state handle s (ReadEmpty # rs) = loop_state handle s rs"
| "loop_state handle s (ReadShort # rs) = None"
| "loop_state handle s (ReadRecord e # rs) =
    (case handle s e of
       Inl err \<Rightarrow> None
     | Inr (s', out) \<Rightarrow> loop_state handle s' rs)"

text \<open>Whether a sink call is a press.\<close>

fun is_press :: "sink_call \<Rightarrow> bool" where
  "is_press (Press b) = True"
| "is_press _ = False"

text \<open>A decoder that keeps no state between events.\<close>

definition stateless :: "(event \<Rightarrow> error + sink_call list) \<Rightarrow> unit \<Rightarrow> event
    \<Rightarrow> error + unit \<times> sink_call list" where
  "stateless f s e = (case f e of Inl err \<Rightarrow> Inl err | Inr out \<Rightarrow> Inr (s, out))"

text \<open>
  The button branch the mapped decoders share:
  \<^verbatim>\<open>button_out = BUTTON_MAP[number]\<close>, then press or release by the value.
\<close>

definition mapped_button :: "button_out list \<Rightarrow> event \<Rightarrow> error + sink_call list" where
  "mapped_button BUTTON_MAP e =
    (case index BUTTON_MAP (int (ev_number e)) of
       Inl err \<Rightarrow> Inl err
     | Inr button_out \<Rightarrow>
         Inr (if ev_value e \<noteq> 0 then [Press button_out] else [Release button_out]))"

section \<open>Decoders\<close>

subsection \<open>read_horipad\<close>

definition horipad_event :: "event \<Rightarrow> error + sink_call list" where
  "horipad_event e =
    (if ev_type e = 1 then
       Inr (if ev_value e \<noteq> 0 then [Press (Code (ev_number e))]
            else [Release (Code (ev_number e))])
     else if ev_type e = 2 then
       (let axis = quantize (ev_value e) in
        Inr (if ev_number e = 0 then [LeftXAxis axis]
             else if ev_number e = 1 then [LeftYAxis axis]
             else if ev_number e = 2 then [RightXAxis axis]
             else if ev_number e = 3 then [RightYAxis axis]
             else if ev_number e = 4 then [DPadXAxis axis]
             else if ev_number e = 5 then [DPadYAxis axis]
             else []))
     else Inr [])"

definition read_horipad :: "read_result list \<Rightarrow> thread_end \<times> sink_call list" where
  "read_horipad rs = decode_loop (stateless horipad_event) () rs"

subsection \<open>read_hori_wheel\<close>

definition wheel_BUTTON_MAP :: "button_out list" where
  "wheel_BUTTON_MAP =
    [ NSButton NSButton_A, NSButton NSButton_B, NSButton NSButton_X, NSButton NSButton_Y,
      NSButton NSButton_LEFT_TRIGGER, NSButton NSButton_RIGHT_TRIGGER,
      NSButton NSButton_MINUS, NSButton NSButton_PLUS, NSButton NSButton_HOME,
      NSButton NSButton_LEFT_STICK, NSButton NSButton_RIGHT_STICK ]"

record wheel_state =
  last_left_throttle :: int
  last_right_throttle :: int
  last_wheel :: int

definition wheel_init :: wheel_state where
  "wheel_init = \<lparr>last_left_throttle = 0, last_right_throttle = 0, last_wheel = 128\<rparr>"

definition hori_wheel_event :: "wheel_state \<Rightarrow> event \<Rightarrow> error + wheel_state \<times> sink_call list" where
  "hori_wheel_event s e =
    (if ev_type e = 1 then
       (case mapped_button wheel_BUTTON_MAP e of
          Inl err \<Rightarrow> Inl err
        | Inr out \<Rightarrow> Inr (s, out))
     else if ev_type e = 2 then
       (let axis = quantize (ev_value e) in
        if ev_number e = 0 then
          Inr (s, if last_wheel s \<noteq> axis then [LeftXAxis axis] else [])
        else if ev_number e = 1 then Inr (s, [LeftYAxis axis])
        else if ev_number e = 2 then
          (if last_left_throttle s \<noteq> axis then
             Inr (s\<lparr>last_left_throttle := axis\<rparr>,
                  if axis > 64 then [Press (NSButton NSButton_LEFT_THROTTLE)]
                  else [Release (NSButton NSButton_LEFT_THROTTLE)])
           else Inr (s, []))
        else if ev_number e = 3 then Inr (s, [RightXAxis axis])
        else if ev_number e = 4 then Inr (s, [RightYAxis axis])
        else if ev_number e = 5 then
          (if last_right_throttle s \<noteq> axis then
             Inr (s\<lparr>last_right_throttle := axis\<rparr>,
                  if axis > 64 then [Press (NSButton NSButton_RIGHT_THROTTLE)]
                  else [Release (NSButton NSButton_RIGHT_THROTTLE)])
           else Inr (s, []))
        else if ev_number e = 6 then Inr (s, [DPadXAxis axis])
        else if ev_number e = 7 then Inr (s, [DPadYAxis axis])
        else Inr (s, []))
     else Inr (s, []))"

definition read_hori_wheel :: "read_result list \<Rightarrow> thread_end \<times> sink_call list" where
  "read_hori_wheel rs = decode_loop hori_wheel_event wheel_init rs"

subsection \<open>read_xbox1\<close>

definition xbox1_BUTTON_MAP :: "button_out list" where
  "xbox1_BUTTON_MAP =
    [ NSButton NSButton_B, NSButton NSButton_A, NSButton NSButton_Y, NSButton NSButton_X,
      NSButton NSButton_LEFT_TRIGGER, NSButton NSButton_RIGHT_TRIGGER,
      NSButton NSButton_MINUS, NSButton NSButton_PLUS, NSButton NSButton_HOME,
      NSButton NSButton_LEFT_STICK, NSButton NSButton_RIGHT_STICK ]"

definition xbox1_event :: "event \<Rightarrow> error + sink_call list" where
  "xbox1_event e =
    (if ev_type e = 1 then mapped_button xbox1_BUTTON_MAP e
     else if ev_type e = 2 then
       (let axis = quantize (ev_value e) in
        Inr (if ev_number e = 0 then [LeftXAxis axis]
             else if ev_number e = 1 then [LeftYAxis axis]
             else if ev_number e = 2 then
               (if axis > 128 then [Press (NSButton NSButton_LEFT_THROTTLE)]
                else [Release (NSButton NSButton_LEFT_THROTTLE)])
             else if ev_number e = 3 then [RightXAxis axis]
             else if ev_number e = 4 then [RightYAxis axis]
             else if ev_number e = 5 then
               (if axis > 128 then [Press (NSButton NSButton_RIGHT_THROTTLE)]
                else [Release (NSButton NSButton_RIGHT_THROTTLE)])
             else if ev_number e = 6 then [DPadXAxis axis]
             else if ev_number e = 7 then [DPadYAxis axis]
             else []))
     else Inr [])"

definition read_xbox1 :: "read_result list \<Rightarrow> thread_end \<times> sink_call list" where
  "read_xbox1 rs = decode_loop (stateless xbox1_event) () rs"

subsection \<open>read_ps4ds\<close>

definition ps4ds_BUTTON_MAP :: "button_out list" where
  "ps4ds_BUTTON_MAP =
    [ NSButton NSButton_B, NSButton NSButton_A, NSButton NSButton_Y, NSButton NSButton_X,
      NSButton NSButton_LEFT_TRIGGER, NSButton NSButton_RIGHT_TRIGGER,
      NSButton NSButton_LEFT_THROTTLE, NSButton NSButton_RIGHT_THROTTLE,
      NSButton NSButton_MINUS, NSButton NSButton_PLUS, NSButton NSButton_HOME,
      NSButton NSButton_LEFT_STICK, NSButton NSButton_RIGHT_STICK ]"

definition ps4ds_event :: "event \<Rightarrow> error + sink_call list" where
  "ps4ds_event e =
    (if ev_type e = 1 then mapped_button ps4ds_BUTTON_MAP e
     else if ev_type e = 2 then
       (let axis = quantize (ev_value e) in
        Inr (if ev_number e = 0 then [LeftXAxis axis]
             else if ev_number e = 1 then [LeftYAxis axis]
             else if ev_number e = 3 then [RightXAxis axis]
             else if ev_number e = 4 then [RightYAxis axis]
             else if ev_number e = 6 then [DPadXAxis axis]
             else if ev_number e = 7 then [DPadYAxis axis]
             else []))
     else Inr [])"

definition read_ps4ds :: "read_result list \<Rightarrow> thread_end \<times> sink_call list" where
  "read_ps4ds rs = decode_loop (stateless ps4ds_event) () rs"

subsection \<open>read_dragon_rise\<close>

definition BUTTON_MAP_LEFT :: "button_out list" where
  "BUTTON_MAP_LEFT =
    [ NSButton NSButton_LEFT_THROTTLE, NSButton NSButton_LEFT_TRIGGER, NSButton NSButton_MINUS,
      Code 255,    \<comment> \<open>DPAD Up\<close>
      Code 255,    \<comment> \<open>DPAD Right\<close>
      Code 255,    \<comment> \<open>DPAD Down\<close>
      Code 255,    \<comment> \<open>DPAD Left\<close>
      NSButton NSButton_LEFT_STICK,
      NSButton NSButton_CAPTURE, NSButton NSButton_CAPTURE,
      NSButton NSButton_CAPTURE, NSButton NSButton_CAPTURE ]"

definition BUTTON_MAP_RIGHT :: "button_out list" where
  "BUTTON_MAP_RIGHT =
    [ NSButton NSButton_RIGHT_THROTTLE, NSButton NSButton_RIGHT_TRIGGER, NSButton NSButton_PLUS,
      NSButton NSButton_A, NSButton NSButton_B, NSButton NSButton_X, NSButton NSButton_Y,
      NSButton NSButton_RIGHT_STICK,
      NSButton NSButton_HOME, NSButton NSButton_HOME,
      NSButton NSButton_HOME, NSButton NSButton_HOME ]"

text \<open>
  The state is the local \<^verbatim>\<open>dpad_bits\<close>. The shift \<^verbatim>\<open>1 << (number - 3)\<close> raises
  ValueError on a negative count.
\<close>

definition dragon_rise_event :: "bool \<Rightarrow> int \<Rightarrow> event \<Rightarrow> error + int \<times> sink_call list" where
  "dragon_rise_event right_side dpad_bits e =
    (if ev_type e = 1 then
       (case index (if right_side then BUTTON_MAP_RIGHT else BUTTON_MAP_LEFT)
               (int (ev_number e)) of
          Inl err \<Rightarrow> Inl err
        | Inr button_out \<Rightarrow>
            if button_out = Code 255 then
              (if ev_number e < 3 then Inl ValueError
               else
                 (let bit = push_bit (ev_number e - 3) (1 :: int);
                      dpad_bits' = (if ev_value e \<noteq> 0 then dpad_bits OR bit
                                    else dpad_bits AND NOT bit)
                  in case dpad_combine dpad_bits' of
                       Inl err \<Rightarrow> Inl err
                     | Inr d \<Rightarrow> Inr (dpad_bits', [DPad d])))
            else
              Inr (dpad_bits,
                   if ev_value e \<noteq> 0 then [Press button_out] else [Release button_out]))
     else if ev_type e = 2 then
       (let axis = quantize (ev_value e) in
        if right_side then
          Inr (dpad_bits,
               if ev_number e = 0 then [RightXAxis axis]
               else if ev_number e = 1 then [RightYAxis axis]
               else [])
        else
          Inr (dpad_bits,
               if ev_number e = 0 then [LeftXAxis axis]
               else if ev_number e = 1 then [LeftYAxis axis]
               else []))
     else Inr (dpad_bits, []))"

definition read_dragon_rise :: "bool \<Rightarrow> read_result list \<Rightarrow> thread_end \<times> sink_call list" where
  "read_dragon_rise right_side rs = decode_loop (dragon_rise_event right_side) 0 rs"

subsection \<open>read_le3dp\<close>

definition le3dp_BUTTON_MAP :: "button_out list" where
  "le3dp_BUTTON_MAP =
    [ NSButton NSButton_A, NSButton NSButton_B, NSButton NSButton_X, NSButton NSButton_Y,
      NSButton NSButton_LEFT_TRIGGER, NSButton NSButton_RIGHT_TRIGGER,
      NSButton NSButton_MINUS, NSButton NSButton_PLUS,
      NSButton NSButton_CAPTURE, NSButton NSButton_HOME,
      NSButton NSButton_LEFT_THROTTLE, NSButton NSButton_RIGHT_THROTTLE ]"

definition le3dp_event :: "event \<Rightarrow> error + sink_call list" where
  "le3dp_event e =
    (if ev_type e = 1 then mapped_button le3dp_BUTTON_MAP e
     else if ev_type e = 2 then
       (let axis = quantize (ev_value e) in
        Inr (if ev_number e = 0 then [LeftXAxis axis]
             else if ev_number e = 1 then [LeftYAxis axis]
             else if ev_number e = 4 then [RightXAxis axis]
             else if ev_number e = 5 then [RightYAxis axis]
             else []))
     else Inr [])"

definition read_le3dp :: "read_result list \<Rightarrow> thread_end \<times> sink_call list" where
  "read_le3dp rs = decode_loop (stateless le3dp_event) () rs"

subsection \<open>read_t16k\<close>

definition t16k_BUTTON_MAP :: "button_out list" where
  "t16k_BUTTON_MAP =
    [ NSButton NSButton_A, NSButton NSButton_B, NSButton NSButton_X, NSButton NSButton_Y,
      NSButton NSButton_LEFT_TRIGGER, NSButton NSButton_RIGHT_TRIGGER,
      NSButton NSButton_MINUS, NSButton NSButton_PLUS,
      NSButton NSButton_CAPTURE, NSButton NSButton_HOME,
      NSButton NSButton_LEFT_STICK, NSButton NSButton_RIGHT_STICK,
      NSButton NSButton_LEFT_THROTTLE, NSButton NSButton_RIGHT_THROTTLE,
      Code 14, Code 15 ]"

definition t16k_event :: "event \<Rightarrow> error + sink_call list" where
  "t16k_event e =
    (if ev_type e = 1 then mapped_button t16k_BUTTON_MAP e
     else if ev_type e = 2 then
       (let axis = quantize (ev_value e) in
        Inr (if ev_number e = 0 then [LeftXAxis axis]
             else if ev_number e = 1 then [LeftYAxis axis]
             else if ev_number e = 4 then [RightXAxis axis]
             else if ev_number e = 5 then [RightYAxis axis]
             else []))
     else Inr [])"

definition read_t16k :: "read_result list \<Rightarrow> thread_end \<times> sink_call list" where
  "read_t16k rs = decode_loop (stateless t16k_event) () rs"

section \<open>Device registry: the loop of main\<close>

text \<open>The function a decoder thread is started on, with its extra argument.\<close>

datatype target =
    Target_read_horipad
  | Target_read_dragon_rise bool
  | Target_read_le3dp
  | Target_read_t16k
  | Target_read_xbox1
  | Target_read_ps4ds
  | Target_read_hori_wheel

fun run_target :: "target \<Rightarrow> read_result list \<Rightarrow> thread_end \<times> sink_call list" where
  "run_target Target_read_horipad = read_horipad"
| "run_target (Target_read_dragon_rise right_side) = read_dragon_rise right_side"
| "run_target Target_read_le3dp = read_le3dp"
| "run_target Target_read_t16k = read_t16k"
| "run_target Target_read_xbox1 = read_xbox1"
| "run_target Target_read_ps4ds = read_ps4ds"
| "run_target Target_read_hori_wheel = read_hori_wheel"

text \<open>
  A \<^verbatim>\<open>threading.Thread\<close> object. Python tells two thread objects apart by identity;
  here each carries the number of threads the registry had started before it.
\<close>

record thread =
  thr_id :: nat
  thr_target :: target
  thr_jsdev :: string

text \<open>
  The locals of \<^verbatim>\<open>main\<close> that live across iterations (\<^verbatim>\<open>joysticks_to_del\<close> is
  empty between iterations), the count of thread objects created, and a history the
  source does not keep: every thread \<^verbatim>\<open>main\<close> has started, in the order started.
  Nothing reads the history; it is there to state what was started when.
\<close>

record registry =
  dr_count :: int
  joysticks :: "string \<rightharpoonup> thread"
  threads_started :: nat
  started :: "thread list"

definition registry_init :: registry where
  "registry_init =
    \<lparr>dr_count = 0, joysticks = Map.empty, threads_started = 0, started = []\<rparr>"

text \<open>
  What the host answers during one iteration: \<^verbatim>\<open>is_alive()\<close> of a thread,
  \<^verbatim>\<open>os.listdir('/dev/input')\<close>, whether \<^verbatim>\<open>open(jsname, 'rb')\<close> returns, and what
  the two lines after it give: the upper-cased device name, or the exception raised,
  OSError by the \<^verbatim>\<open>ioctl\<close> and UnicodeDecodeError by \<^verbatim>\<open>decode('utf-8')\<close>.
\<close>

record host =
  is_alive :: "thread \<Rightarrow> bool"
  listdir :: "string list"
  open_ok :: "string \<Rightarrow> bool"
  jslongname :: "string \<Rightarrow> error + string"

text \<open>Python's \<^verbatim>\<open>sub in s\<close> on strings.\<close>

fun str_in :: "string \<Rightarrow> string \<Rightarrow> bool" where
  "str_in sub [] = (sub = [])"
| "str_in sub (c # cs) = (prefix sub (c # cs) \<or> str_in sub cs)"

text \<open>The first loops of an iteration: forget every joystick whose thread is not alive.\<close>

definition reap :: "host \<Rightarrow> registry \<Rightarrow> registry" where
  "reap h st =
    st\<lparr>joysticks :=
         (\<lambda>jsname. case joysticks st jsname of
                      None \<Rightarrow> None
                    | Some thr \<Rightarrow> if is_alive h thr then Some thr else None)\<rparr>"

text \<open>Creating a thread on a target, starting it and storing it under the device path.\<close>

definition start_thread :: "target \<Rightarrow> string \<Rightarrow> registry \<Rightarrow> registry" where
  "start_thread tg jsname st =
    (let thr = \<lparr>thr_id = threads_started st, thr_target = tg, thr_jsdev = jsname\<rparr>
     in st\<lparr>joysticks := (joysticks st)(jsname \<mapsto> thr),
           threads_started := Suc (threads_started st),
           started := started st @ [thr]\<rparr>)"

text \<open>The chain of name tests, in the source's order.\<close>

definition match_name :: "string \<Rightarrow> string \<Rightarrow> registry \<Rightarrow> registry" where
  "match_name name jsname st =
    (if str_in ''HORIPAD'' name then start_thread Target_read_horipad jsname st
     else if str_in ''DRAGONRISE INC.'' name then
       (start_thread (Target_read_dragon_rise ((dr_count st AND 1) \<noteq> 0)) jsname st)
         \<lparr>dr_count := dr_count st + 1\<rparr>
     else if str_in ''LOGITECH EXTREME 3D'' name then start_thread Target_read_le3dp jsname st
     else if str_in ''THRUSTMASTER T.16000M'' name then start_thread Target_read_t16k jsname st
     else if str_in ''MICROSOFT X-BOX ONE'' name then start_thread Target_read_xbox1 jsname st
     else if str_in ''SONY INTERACTIVE ENTERTAINMENT WIRELESS CONTROLLER'' name then
       start_thread Target_read_ps4ds jsname st
     else if str_in ''GENERIC X-BOX PAD'' name then start_thread Target_read_hori_wheel jsname st
     else st)"

definition jspath :: "string \<Rightarrow> string" where
  "jspath fn = ''/dev/input/'' @ fn"

text \<open>
  The loop over the directory listing. A failed \<^verbatim>\<open>open\<close> leaves the loop
  (\<^verbatim>\<open>break\<close>); the \<^verbatim>\<open>ioctl\<close> and the decoding stand outside the \<^verbatim>\<open>try\<close>, so
  their exception leaves \<^verbatim>\<open>main\<close>.
\<close>

fun discover :: "host \<Rightarrow> string list \<Rightarrow> registry \<Rightarrow> error + registry" where
  "discover h [] st = Inr st"
| "discover h (fn # fns) st =
    (if prefix ''js'' fn then
       (let jsname = jspath fn in
        if joysticks st jsname = None then
          (if \<not> open_ok h jsname then Inr st
           else
             (case jslongname h jsname of
                Inl err \<Rightarrow> Inl err
              | Inr name \<Rightarrow> discover h fns (match_name name jsname st)))
        else discover h fns st)
     else discover h fns st)"

text \<open>One iteration of the \<^verbatim>\<open>while True\<close> of \<^verbatim>\<open>main\<close>, up to its sleep.\<close>

definition poll_cycle :: "host \<Rightarrow> registry \<Rightarrow> error + registry" where
  "poll_cycle h st = discover h (listdir h) (reap h st)"

text \<open>Successive iterations, each with the host's answers at that time.\<close>

fun main_loop :: "host list \<Rightarrow> registry \<Rightarrow> error + registry" where
  "main_loop [] st = Inr st"
| "main_loop (h # hs) st =
    (case poll_cycle h st of Inl err \<Rightarrow> Inl err | Inr st' \<Rightarrow> main_loop hs st')"



text \<open>
  The \<^verbatim>\<open>right_side\<close> arguments of the arcade-stick threads in the history, in the order
  the threads were started.
\<close>

fun right_side_of :: "target \<Rightarrow> bool list" where
  "right_side_of (Target_read_dragon_rise right_side) = [right_side]"
| "right_side_of _ = []"

definition dr_roles :: "registry \<Rightarrow> bool list" where
  "dr_roles st = concat (map (\<lambda>thr. right_side_of (thr_target thr)) (started st))"

text \<open>
  The history is in step with the registry: \<^verbatim>\<open>dr_count\<close> is the number of arcade-stick
  threads started, their \<^verbatim>\<open>right_side\<close> arguments alternate beginning with false,
  the threads of the history are numbered in the order started, and every tracked thread
  is a thread of the history, tracked under the path it reads.
\<close>

definition history_ok :: "registry \<Rightarrow> bool" where
  "history_ok st =
    (dr_count st = int (length (dr_roles st))
     \<and> dr_roles st = map odd [0..<length (dr_roles st)]
     \<and> map thr_id (started st) = [0..<threads_started st]
     \<and> (\<forall>p t. joysticks st p = Some t \<longrightarrow> t \<in> set (started st) \<and> thr_jsdev t = p))"


section \<open>Hosts used as examples\<close>

text \<open>Two arcade sticks, both alive, that open and answer.\<close>

definition two_sticks :: host where
  "two_sticks = \<lparr>is_alive = (\<lambda>t. True), listdir = [''js0'', ''js1''],
     open_ok = (\<lambda>p. True), jslongname = (\<lambda>p. Inr ''DRAGONRISE INC.   GENERIC   USB  JOYSTICK'')\<rparr>"






section \<open>Array lookups\<close>

lemma index_in_range: "i < length xs \<Longrightarrow> index xs (int i) = Inr (xs ! i)"
  by (simp add: index_def)

lemma index_beyond: "length xs \<le> i \<Longrightarrow> index xs (int i) = Inl IndexError"
  by (simp add: index_def)

section \<open>The axis quantizer\<close>

lemma quantize_div: "quantize v = (v + 32768) div 256"
  by (simp add: quantize_def drop_bit_eq_div)

lemma quantize_range:
  assumes lo: "- 32768 \<le> v" and hi: "v \<le> 32767"
  shows "0 \<le> quantize v \<and> quantize v \<le> 255"
proof -
  have "0 \<le> (v + 32768) div 256"
    using lo by (simp add: pos_imp_zdiv_nonneg_iff)
  moreover have "(v + 32768) div 256 \<le> 65535 div 256"
    using hi by (intro zdiv_mono1) simp_all
  ultimately show ?thesis by (simp add: quantize_div)
qed

text \<open>
  C3. On every signed 16-bit sample the quantizer is \<open>(raw + 32768) >> 8\<close>, that is the
  floor of \<open>(raw + 32768) / 2\<^sup>8\<close>, and its result lies in \<open>0..255\<close>. Every decoder
  works on this number and on nothing else of the sample, for an axis event of any
  number: each call it makes carries this number, and each comparison it makes (the
  throttles of the Xbox One decoder against 128, the throttles and the caches of the
  racing wheel) is on this number. The four boundary samples give 0, 127, 128 and 255.
\<close>

theorem quantize_formula:
  fixes raw :: int and t n :: nat
  assumes "- 32768 \<le> raw" and "raw \<le> 32767"
  defines "e \<equiv> \<lparr>ev_timestamp = t, ev_value = raw, ev_type = 2, ev_number = n\<rparr>"
    and "q \<equiv> (raw + 32768) div 2 ^ 8"
  shows "quantize raw = q \<and> 0 \<le> q \<and> q \<le> 255
    \<and> horipad_event e =
        Inr (if n = 0 then [LeftXAxis q] else if n = 1 then [LeftYAxis q]
             else if n = 2 then [RightXAxis q] else if n = 3 then [RightYAxis q]
             else if n = 4 then [DPadXAxis q] else if n = 5 then [DPadYAxis q]
             else [])
    \<and> hori_wheel_event s e =
        (if n = 0 then Inr (s, if last_wheel s \<noteq> q then [LeftXAxis q] else [])
         else if n = 1 then Inr (s, [LeftYAxis q])
         else if n = 2 then
           (if last_left_throttle s \<noteq> q then
              Inr (s\<lparr>last_left_throttle := q\<rparr>,
                   if q > 64 then [Press (NSButton NSButton_LEFT_THROTTLE)]
                   else [Release (NSButton NSButton_LEFT_THROTTLE)])
            else Inr (s, []))
         else if n = 3 then Inr (s, [RightXAxis q])
         else if n = 4 then Inr (s, [RightYAxis q])
         else if n = 5 then
           (if last_right_throttle s \<noteq> q then
              Inr (s\<lparr>last_right_throttle := q\<rparr>,
                   if q > 64 then [Press (NSButton NSButton_RIGHT_THROTTLE)]
                   else [Release (NSButton NSButton_RIGHT_THROTTLE)])
            else Inr (s, []))
         else if n = 6 then Inr (s, [DPadXAxis q])
         else if n = 7 then Inr (s, [DPadYAxis q])
         else Inr (s, []))
    \<and> xbox1_event e =
        Inr (if n = 0 then [LeftXAxis q] else if n = 1 then [LeftYAxis q]
             else if n = 2 then
               (if q > 128 then [Press (NSButton NSButton_LEFT_THROTTLE)]
                else [Release (NSButton NSButton_LEFT_THROTTLE)])
             else if n = 3 then [RightXAxis q] else if n = 4 then [RightYAxis q]
             else if n = 5 then
               (if q > 128 then [Press (NSButton NSButton_RIGHT_THROTTLE)]
                else [Release (NSButton NSButton_RIGHT_THROTTLE)])
             else if n = 6 then [DPadXAxis q] else if n = 7 then [DPadYAxis q]
             else [])
    \<and> ps4ds_event e =
        Inr (if n = 0 then [LeftXAxis q] else if n = 1 then [LeftYAxis q]
             else if n = 3 then [RightXAxis q] else if n = 4 then [RightYAxis q]
             else if n = 6 then [DPadXAxis q] else if n = 7 then [DPadYAxis q]
             else [])
    \<and> dragon_rise_event False dpad_bits e =
        Inr (dpad_bits, if n = 0 then [LeftXAxis q] else if n = 1 then [LeftYAxis q] else [])
    \<and> dragon_rise_event True dpad_bits e =
        Inr (dpad_bits, if n = 0 then [RightXAxis q] else if n = 1 then [RightYAxis q] else [])
    \<and> le3dp_event e =
        Inr (if n = 0 then [LeftXAxis q] else if n = 1 then [LeftYAxis q]
             else if n = 4 then [RightXAxis q] else if n = 5 then [RightYAxis q]
             else [])
    \<and> t16k_event e =
        Inr (if n = 0 then [LeftXAxis q] else if n = 1 then [LeftYAxis q]
             else if n = 4 then [RightXAxis q] else if n = 5 then [RightYAxis q]
             else [])
    \<and> quantize (- 32768) = 0 \<and> quantize (- 1) = 127
    \<and> quantize 0 = 128 \<and> quantize 32767 = 255"
proof -
  have q: "quantize raw = q"
    by (simp add: q_def quantize_div)
  have range: "0 \<le> q \<and> q \<le> 255"
    using quantize_range [OF assms(1,2)] by (simp add: q)
  have ty: "ev_type e = 2" "ev_number e = n" "ev_value e = raw"
    by (simp_all add: e_def)
  have horipad: "horipad_event e =
        Inr (if n = 0 then [LeftXAxis q] else if n = 1 then [LeftYAxis q]
             else if n = 2 then [RightXAxis q] else if n = 3 then [RightYAxis q]
             else if n = 4 then [DPadXAxis q] else if n = 5 then [DPadYAxis q]
             else [])"
    by (simp add: horipad_event_def ty q)
  have wheel: "hori_wheel_event s e =
        (if n = 0 then Inr (s, if last_wheel s \<noteq> q then [LeftXAxis q] else [])
         else if n = 1 then Inr (s, [LeftYAxis q])
         else if n = 2 then
           (if last_left_throttle s \<noteq> q then
              Inr (s\<lparr>last_left_throttle := q\<rparr>,
                   if q > 64 then [Press (NSButton NSButton_LEFT_THROTTLE)]
                   else [Release (NSButton NSButton_LEFT_THROTTLE)])
            else Inr (s, []))
         else if n = 3 then Inr (s, [RightXAxis q])
         else if n = 4 then Inr (s, [RightYAxis q])
         else if n = 5 then
           (if last_right_throttle s \<noteq> q then
              Inr (s\<lparr>last_right_throttle := q\<rparr>,
                   if q > 64 then [Press (NSButton NSButton_RIGHT_THROTTLE)]
                   else [Release (NSButton NSButton_RIGHT_THROTTLE)])
            else Inr (s, []))
         else if n = 6 then Inr (s, [DPadXAxis q])
         else if n = 7 then Inr (s, [DPadYAxis q])
         else Inr (s, []))"
    by (simp add: hori_wheel_event_def ty q)
  have xbox1: "xbox1_event e =
        Inr (if n = 0 then [LeftXAxis q] else if n = 1 then [LeftYAxis q]
             else if n = 2 then
               (if q > 128 then [Press (NSButton NSButton_LEFT_THROTTLE)]
                else [Release (NSButton NSButton_LEFT_THROTTLE)])
             else if n = 3 then [RightXAxis q] else if n = 4 then [RightYAxis q]
             else if n = 5 then
               (if q > 128 then [Press (NSButton NSButton_RIGHT_THROTTLE)]
                else [Release (NSButton NSButton_RIGHT_THROTTLE)])
             else if n = 6 then [DPadXAxis q] else if n = 7 then [DPadYAxis q]
             else [])"
    by (simp add: xbox1_event_def ty q)
  have ps4ds: "ps4ds_event e =
        Inr (if n = 0 then [LeftXAxis q] else if n = 1 then [LeftYAxis q]
             else if n = 3 then [RightXAxis q] else if n = 4 then [RightYAxis q]
             else if n = 6 then [DPadXAxis q] else if n = 7 then [DPadYAxis q]
             else [])"
    by (simp add: ps4ds_event_def ty q)
  have dragon: "dragon_rise_event False dpad_bits e =
        Inr (dpad_bits, if n = 0 then [LeftXAxis q] else if n = 1 then [LeftYAxis q] else [])"
    "dragon_rise_event True dpad_bits e =
        Inr (dpad_bits, if n = 0 then [RightXAxis q] else if n = 1 then [RightYAxis q] else [])"
    by (simp_all add: dragon_rise_event_def ty q)
  have sticks: "le3dp_event e =
        Inr (if n = 0 then [LeftXAxis q] else if n = 1 then [LeftYAxis q]
             else if n = 4 then [RightXAxis q] else if n = 5 then [RightYAxis q]
             else [])"
    "t16k_event e =
        Inr (if n = 0 then [LeftXAxis q] else if n = 1 then [LeftYAxis q]
             else if n = 4 then [RightXAxis q] else if n = 5 then [RightYAxis q]
             else [])"
    by (simp_all add: le3dp_event_def t16k_event_def ty q)
  have samples: "quantize (- 32768) = 0" "quantize (- 1) = 127"
    "quantize 0 = 128" "quantize 32767 = 255"
    by (simp_all add: quantize_div)
  show ?thesis
    by (intro conjI q range [THEN conjunct1] range [THEN conjunct2] horipad wheel xbox1 ps4ds
        dragon sticks samples)
qed

theorem quantize_formula_witness:
  "- 32768 \<le> (- 1 :: int) \<and> (- 1 :: int) \<le> 32767 \<and> quantize (- 1) = 127
    \<and> xbox1_event \<lparr>ev_timestamp = 0, ev_value = - 1, ev_type = 2, ev_number = 5\<rparr>
        = Inr [Release (NSButton NSButton_RIGHT_THROTTLE)]
    \<and> horipad_event \<lparr>ev_timestamp = 0, ev_value = - 1, ev_type = 2, ev_number = 5\<rparr>
        = Inr [DPadYAxis 127]"
  using quantize_formula [where raw = "- 1" and t = 0 and n = 5] by simp

section \<open>The direction pad combiner\<close>

lemma mask_cases:
  "0 \<le> m \<Longrightarrow> m < 16 \<Longrightarrow>
    m \<in> {0, 1, 2, 3, 4, 5, 6, 7, 8, 9, 10, 11, 12, 13, 14, 15 :: int}"
  by simp arith

lemma dpad_values:
  "dpad_combine 0 = Inr NSDPad_CENTERED" "dpad_combine 1 = Inr NSDPad_UP"
  "dpad_combine 2 = Inr NSDPad_RIGHT" "dpad_combine 3 = Inr NSDPad_UP_RIGHT"
  "dpad_combine 4 = Inr NSDPad_DOWN" "dpad_combine 5 = Inr NSDPad_CENTERED"
  "dpad_combine 6 = Inr NSDPad_DOWN_RIGHT" "dpad_combine 7 = Inr NSDPad_CENTERED"
  "dpad_combine 8 = Inr NSDPad_LEFT" "dpad_combine 9 = Inr NSDPad_UP_LEFT"
  "dpad_combine 10 = Inr NSDPad_CENTERED" "dpad_combine 11 = Inr NSDPad_CENTERED"
  "dpad_combine 12 = Inr NSDPad_DOWN_LEFT" "dpad_combine 13 = Inr NSDPad_CENTERED"
  "dpad_combine 14 = Inr NSDPad_CENTERED" "dpad_combine 15 = Inr NSDPad_CENTERED"
  by (simp_all add: dpad_combine_def index_def BUTTONS_MAP_DPAD_def)

lemma dpad_total: "0 \<le> m \<Longrightarrow> m < 16 \<Longrightarrow> \<exists>d. dpad_combine m = Inr d"
  using mask_cases [of m] by (auto simp add: dpad_values)

lemma dpad_opposite:
  "0 \<le> m \<Longrightarrow> m < 16 \<Longrightarrow> (bit m 3 \<and> bit m 1) \<or> (bit m 2 \<and> bit m 0)
    \<Longrightarrow> dpad_combine m = Inr NSDPad_CENTERED"
  using mask_cases [of m] by (auto simp add: dpad_values)

text \<open>
  C2. The combiner returns a direction on each of the 16 masks, and the direction is the
  one of the reference table (a mask is written with bit 3 for Left, bit 2 for Down,
  bit 1 for Right and bit 0 for Up, so \<open>6 = 0110\<close> is Down and Right). A mask with both
  the Left and the Right bit, or both the Down and the Up bit, gives Centered whatever
  its other bits are.
\<close>

theorem dpad_combiner_table:
  "dpad_combine 0 = Inr NSDPad_CENTERED \<and> dpad_combine 1 = Inr NSDPad_UP
    \<and> dpad_combine 2 = Inr NSDPad_RIGHT \<and> dpad_combine 3 = Inr NSDPad_UP_RIGHT
    \<and> dpad_combine 4 = Inr NSDPad_DOWN \<and> dpad_combine 5 = Inr NSDPad_CENTERED
    \<and> dpad_combine 6 = Inr NSDPad_DOWN_RIGHT \<and> dpad_combine 7 = Inr NSDPad_CENTERED
    \<and> dpad_combine 8 = Inr NSDPad_LEFT \<and> dpad_combine 9 = Inr NSDPad_UP_LEFT
    \<and> dpad_combine 10 = Inr NSDPad_CENTERED \<and> dpad_combine 11 = Inr NSDPad_CENTERED
    \<and> dpad_combine 12 = Inr NSDPad_DOWN_LEFT \<and> dpad_combine 13 = Inr NSDPad_CENTERED
    \<and> dpad_combine 14 = Inr NSDPad_CENTERED \<and> dpad_combine 15 = Inr NSDPad_CENTERED
    \<and> (\<forall>m. 0 \<le> m \<and> m < 16 \<longrightarrow> (\<exists>d. dpad_combine m = Inr d))
    \<and> (\<forall>m. 0 \<le> m \<and> m < 16 \<and> bit m 3 \<and> bit m 1 \<longrightarrow> dpad_combine m = Inr NSDPad_CENTERED)
    \<and> (\<forall>m. 0 \<le> m \<and> m < 16 \<and> bit m 2 \<and> bit m 0 \<longrightarrow> dpad_combine m = Inr NSDPad_CENTERED)"
  using dpad_total dpad_opposite by (simp add: dpad_values)

theorem dpad_combiner_table_witness:
  "(0 :: int) \<le> 11 \<and> (11 :: int) < 16 \<and> bit (11 :: int) 3 \<and> bit (11 :: int) 1
    \<and> dpad_combine 11 = Inr NSDPad_CENTERED
    \<and> (0 :: int) \<le> 13 \<and> (13 :: int) < 16 \<and> bit (13 :: int) 2 \<and> bit (13 :: int) 0
    \<and> dpad_combine 13 = Inr NSDPad_CENTERED"
proof -
  have lr: "\<forall>m. 0 \<le> m \<and> m < 16 \<and> bit m 3 \<and> bit m 1 \<longrightarrow> dpad_combine m = Inr NSDPad_CENTERED"
    and ud: "\<forall>m. 0 \<le> m \<and> m < 16 \<and> bit m 2 \<and> bit m 0 \<longrightarrow> dpad_combine m = Inr NSDPad_CENTERED"
    using dpad_combiner_table by blast+
  have b: "bit (11 :: int) 3" "bit (11 :: int) 1" "bit (13 :: int) 2" "bit (13 :: int) 0"
    by simp_all
  show ?thesis
    using lr [rule_format, of 11] ud [rule_format, of 13] b by simp
qed

section \<open>The Xbox One decoder\<close>

text \<open>
  C4. On the Xbox One decoder, button 6 with value 1 presses Minus and with value 0
  releases it. An event of axis 2 with value 200 quantizes to 128, which is not above
  128: the decoder makes one call, a release of the left throttle, and no press. With
  value 20000 the sample quantizes to 206 and the decoder presses the left throttle.
\<close>

theorem xbox1_scenario:
  "xbox1_event \<lparr>ev_timestamp = t, ev_value = 1, ev_type = 1, ev_number = 6\<rparr>
      = Inr [Press (NSButton NSButton_MINUS)]
    \<and> xbox1_event \<lparr>ev_timestamp = t, ev_value = 0, ev_type = 1, ev_number = 6\<rparr>
      = Inr [Release (NSButton NSButton_MINUS)]
    \<and> quantize 200 = 128
    \<and> xbox1_event \<lparr>ev_timestamp = t, ev_value = 200, ev_type = 2, ev_number = 2\<rparr>
      = Inr [Release (NSButton NSButton_LEFT_THROTTLE)]
    \<and> quantize 20000 = 206
    \<and> xbox1_event \<lparr>ev_timestamp = t, ev_value = 20000, ev_type = 2, ev_number = 2\<rparr>
      = Inr [Press (NSButton NSButton_LEFT_THROTTLE)]"
  by (simp add: xbox1_event_def mapped_button_def index_def xbox1_BUTTON_MAP_def quantize_div)

section \<open>Runs of the decode loop\<close>

lemma decode_loop_append:
  "loop_state handle s rs = Some s' \<Longrightarrow>
    decode_loop handle s (rs @ rs') =
      (fst (decode_loop handle s' rs'), snd (decode_loop handle s rs) @ snd (decode_loop handle s' rs'))"
proof (induction handle s rs rule: decode_loop.induct)
  case (5 handle s e rs)
  then show ?case
    by (auto split: sum.splits prod.splits)
qed simp_all

lemma blocked_loop_state:
  "fst (decode_loop handle s rs) = Blocked_on_read \<Longrightarrow> \<exists>s'. loop_state handle s rs = Some s'"
proof (induction handle s rs rule: decode_loop.induct)
  case (5 handle s e rs)
  then show ?case
    by (auto split: sum.splits prod.splits)
qed simp_all

lemma loop_raise_after:
  assumes "fst (decode_loop handle s pre) = Blocked_on_read"
    and "\<And>s'. handle s' e = Inl err"
  shows "decode_loop handle s (pre @ ReadRecord e # rs) = (Raised err, snd (decode_loop handle s pre))"
proof -
  obtain s' where "loop_state handle s pre = Some s'"
    using blocked_loop_state [OF assms(1)] by blast
  then show ?thesis
    by (simp add: decode_loop_append assms(2))
qed

section \<open>Button events outside the button map\<close>

lemma mapped_button_beyond:
  "length BUTTON_MAP \<le> ev_number e \<Longrightarrow> mapped_button BUTTON_MAP e = Inl IndexError"
  by (simp add: mapped_button_def index_beyond)

lemma beyond_events:
  assumes "ev_type e = 1"
  shows "length wheel_BUTTON_MAP \<le> ev_number e \<Longrightarrow> hori_wheel_event s e = Inl IndexError"
    and "length xbox1_BUTTON_MAP \<le> ev_number e \<Longrightarrow> stateless xbox1_event u e = Inl IndexError"
    and "length ps4ds_BUTTON_MAP \<le> ev_number e \<Longrightarrow> stateless ps4ds_event u e = Inl IndexError"
    and "length BUTTON_MAP_LEFT \<le> ev_number e \<Longrightarrow> dragon_rise_event False b e = Inl IndexError"
    and "length BUTTON_MAP_RIGHT \<le> ev_number e \<Longrightarrow> dragon_rise_event True b e = Inl IndexError"
    and "length le3dp_BUTTON_MAP \<le> ev_number e \<Longrightarrow> stateless le3dp_event u e = Inl IndexError"
    and "length t16k_BUTTON_MAP \<le> ev_number e \<Longrightarrow> stateless t16k_event u e = Inl IndexError"
  using assms
  by (simp_all add: hori_wheel_event_def xbox1_event_def ps4ds_event_def dragon_rise_event_def
      le3dp_event_def t16k_event_def stateless_def mapped_button_beyond index_beyond)

lemma horipad_button:
  "ev_type e = 1 \<Longrightarrow>
    stateless horipad_event u e =
      Inr (u, [if ev_value e \<noteq> 0 then Press (Code (ev_number e)) else Release (Code (ev_number e))])"
  by (simp add: stateless_def horipad_event_def)

text \<open>
  C1, as the code has it. Take a button event whose index is at or beyond the length of
  the decoder's button map, arriving while the thread waits for a read. In each decoder
  that has a map (racing wheel, Xbox One, PS4, arcade stick on either side, Logitech
  Extreme 3D, T.16000M) the lookup raises IndexError: the calls made so far stay as they
  are, no call is made for the event, the thread ends, and the reads that follow are
  never decoded. The HoriPad decoder has no map: it passes the index itself to press or
  release and goes on.
\<close>

theorem unmapped_button_raises:
  assumes "ev_type e = 1"
  shows
   "(fst (read_hori_wheel pre) = Blocked_on_read \<and> length wheel_BUTTON_MAP \<le> ev_number e \<longrightarrow>
       read_hori_wheel (pre @ ReadRecord e # rs) = (Raised IndexError, snd (read_hori_wheel pre)))
  \<and> (fst (read_xbox1 pre) = Blocked_on_read \<and> length xbox1_BUTTON_MAP \<le> ev_number e \<longrightarrow>
       read_xbox1 (pre @ ReadRecord e # rs) = (Raised IndexError, snd (read_xbox1 pre)))
  \<and> (fst (read_ps4ds pre) = Blocked_on_read \<and> length ps4ds_BUTTON_MAP \<le> ev_number e \<longrightarrow>
       read_ps4ds (pre @ ReadRecord e # rs) = (Raised IndexError, snd (read_ps4ds pre)))
  \<and> (fst (read_dragon_rise False pre) = Blocked_on_read \<and> length BUTTON_MAP_LEFT \<le> ev_number e \<longrightarrow>
       read_dragon_rise False (pre @ ReadRecord e # rs)
         = (Raised IndexError, snd (read_dragon_rise False pre)))
  \<and> (fst (read_dragon_rise True pre) = Blocked_on_read \<and> length BUTTON_MAP_RIGHT \<le> ev_number e \<longrightarrow>
       read_dragon_rise True (pre @ ReadRecord e # rs)
         = (Raised IndexError, snd (read_dragon_rise True pre)))
  \<and> (fst (read_le3dp pre) = Blocked_on_read \<and> length le3dp_BUTTON_MAP \<le> ev_number e \<longrightarrow>
       read_le3dp (pre @ ReadRecord e # rs) = (Raised IndexError, snd (read_le3dp pre)))
  \<and> (fst (read_t16k pre) = Blocked_on_read \<and> length t16k_BUTTON_MAP \<le> ev_number e \<longrightarrow>
       read_t16k (pre @ ReadRecord e # rs) = (Raised IndexError, snd (read_t16k pre)))
  \<and> (fst (read_horipad pre) = Blocked_on_read \<longrightarrow>
       read_horipad (pre @ ReadRecord e # rs)
         = (fst (read_horipad rs),
            snd (read_horipad pre)
              @ (if ev_value e \<noteq> 0 then Press (Code (ev_number e)) else Release (Code (ev_number e)))
              # snd (read_horipad rs)))"
proof -
  have hp: "fst (read_horipad pre) = Blocked_on_read \<Longrightarrow>
       read_horipad (pre @ ReadRecord e # rs)
         = (fst (read_horipad rs),
            snd (read_horipad pre)
              @ (if ev_value e \<noteq> 0 then Press (Code (ev_number e)) else Release (Code (ev_number e)))
              # snd (read_horipad rs))"
  proof -
    assume "fst (read_horipad pre) = Blocked_on_read"
    then obtain u where "loop_state (stateless horipad_event) () pre = Some u"
      unfolding read_horipad_def
      using blocked_loop_state [of "stateless horipad_event" "()" pre] by blast
    then show ?thesis
      unfolding read_horipad_def
      by (simp add: decode_loop_append horipad_button [OF assms] split: prod.splits)
  qed
  show ?thesis
    unfolding read_hori_wheel_def read_xbox1_def read_ps4ds_def read_dragon_rise_def
      read_le3dp_def read_t16k_def
    using hp
    by (intro conjI impI; (elim conjE)?)
       (simp_all add: loop_raise_after beyond_events [OF assms])
qed

theorem unmapped_button_raises_witness:
  "read_xbox1 [ReadRecord \<lparr>ev_timestamp = 0, ev_value = 1, ev_type = 1, ev_number = 0\<rparr>,
               ReadRecord \<lparr>ev_timestamp = 1, ev_value = 1, ev_type = 1, ev_number = 11\<rparr>,
               ReadRecord \<lparr>ev_timestamp = 2, ev_value = 0, ev_type = 1, ev_number = 0\<rparr>]
    = (Raised IndexError, [Press (NSButton NSButton_B)])"
proof -
  let ?first = "\<lparr>ev_timestamp = 0, ev_value = 1, ev_type = 1, ev_number = 0\<rparr>"
  let ?bad = "\<lparr>ev_timestamp = 1, ev_value = 1, ev_type = 1, ev_number = 11\<rparr>"
  have pre: "read_xbox1 [ReadRecord ?first] = (Blocked_on_read, [Press (NSButton NSButton_B)])"
    by (simp add: read_xbox1_def stateless_def xbox1_event_def mapped_button_def index_def
        xbox1_BUTTON_MAP_def)
  have len: "length xbox1_BUTTON_MAP \<le> ev_number ?bad"
    by (simp add: xbox1_BUTTON_MAP_def)
  have ty: "ev_type ?bad = 1"
    by simp
  have blocked: "fst (read_xbox1 [ReadRecord ?first]) = Blocked_on_read"
    unfolding pre by simp
  have "read_xbox1 ([ReadRecord ?first] @ ReadRecord ?bad #
          [ReadRecord \<lparr>ev_timestamp = 2, ev_value = 0, ev_type = 1, ev_number = 0\<rparr>])
        = (Raised IndexError, snd (read_xbox1 [ReadRecord ?first]))"
    using unmapped_button_raises [OF ty, of "[ReadRecord ?first]"] blocked len by blast
  then show ?thesis
    unfolding pre by simp
qed

text \<open>
  The claim as worded fails: on the Xbox One decoder a button event with index 11 ends
  the thread, so the button event behind it, which alone would press B, is never decoded;
  and the HoriPad decoder calls the sink with index 200.
\<close>

theorem unmapped_button_counterexample:
  "read_xbox1 [ReadRecord \<lparr>ev_timestamp = 0, ev_value = 1, ev_type = 1, ev_number = 11\<rparr>,
               ReadRecord \<lparr>ev_timestamp = 1, ev_value = 1, ev_type = 1, ev_number = 0\<rparr>]
      = (Raised IndexError, [])
   \<and> read_xbox1 [ReadRecord \<lparr>ev_timestamp = 1, ev_value = 1, ev_type = 1, ev_number = 0\<rparr>]
      = (Blocked_on_read, [Press (NSButton NSButton_B)])
   \<and> read_horipad [ReadRecord \<lparr>ev_timestamp = 0, ev_value = 1, ev_type = 1, ev_number = 200\<rparr>]
      = (Blocked_on_read, [Press (Code 200)])"
  by (simp add: read_xbox1_def read_horipad_def stateless_def xbox1_event_def horipad_event_def
      mapped_button_def index_def xbox1_BUTTON_MAP_def)

section \<open>The racing wheel\<close>

lemma hori_wheel_last_wheel:
  "hori_wheel_event s e = Inr (s', out) \<Longrightarrow> last_wheel s' = last_wheel s"
  by (auto simp add: hori_wheel_event_def Let_def split: if_splits sum.splits)

lemma loop_state_last_wheel:
  "loop_state hori_wheel_event s rs = Some s' \<Longrightarrow> last_wheel s' = last_wheel s"
proof (induction hori_wheel_event s rs rule: loop_state.induct)
  case (5 s e rs)
  then show ?case
    by (auto split: sum.splits dest: hori_wheel_last_wheel)
qed simp_all

lemma wheel_steering:
  "ev_type e = 2 \<Longrightarrow> ev_number e = 0 \<Longrightarrow>
    hori_wheel_event s e =
      Inr (s, if quantize (ev_value e) = last_wheel s then [] else [LeftXAxis (quantize (ev_value e))])"
  by (auto simp add: hori_wheel_event_def Let_def)

lemma wheel_throttle_first:
  "ev_type e = 2 \<Longrightarrow> ev_number e = 2 \<Longrightarrow>
    hori_wheel_event s e =
      (if last_left_throttle s \<noteq> quantize (ev_value e)
       then Inr (s\<lparr>last_left_throttle := quantize (ev_value e)\<rparr>,
                 if quantize (ev_value e) > 64 then [Press (NSButton NSButton_LEFT_THROTTLE)]
                 else [Release (NSButton NSButton_LEFT_THROTTLE)])
       else Inr (s, []))"
  by (simp add: hori_wheel_event_def Let_def)

lemma wheel_throttle_right:
  "ev_type e = 2 \<Longrightarrow> ev_number e = 5 \<Longrightarrow>
    hori_wheel_event s e =
      (if last_right_throttle s \<noteq> quantize (ev_value e)
       then Inr (s\<lparr>last_right_throttle := quantize (ev_value e)\<rparr>,
                 if quantize (ev_value e) > 64 then [Press (NSButton NSButton_RIGHT_THROTTLE)]
                 else [Release (NSButton NSButton_RIGHT_THROTTLE)])
       else Inr (s, []))"
  by (simp add: hori_wheel_event_def Let_def)

text \<open>
  C7. Two successive events of the same throttle axis of the racing wheel (axis 2 or 5)
  with the same quantized value, from any state of the caches: the second event makes no
  sink call and leaves the caches as they are, so the two events together make at most
  one press.
\<close>

theorem wheel_throttle_repeat:
  assumes "ev_type e1 = 2" and "ev_type e2 = 2"
    and "ev_number e1 = ev_number e2"
    and "ev_number e1 = 2 \<or> ev_number e1 = 5"
    and "quantize (ev_value e1) = quantize (ev_value e2)"
  shows "\<exists>s1 out1.
      hori_wheel_event s e1 = Inr (s1, out1)
    \<and> hori_wheel_event s1 e2 = Inr (s1, [])
    \<and> decode_loop hori_wheel_event s [ReadRecord e1, ReadRecord e2] = (Blocked_on_read, out1)
    \<and> length (filter is_press out1) \<le> 1"
proof -
  from assms(4) show ?thesis
  proof
    assume n: "ev_number e1 = 2"
    then have n2: "ev_number e2 = 2" using assms(3) by simp
    show ?thesis
      using assms(5)
      by (simp add: wheel_throttle_first [OF assms(1) n] wheel_throttle_first [OF assms(2) n2])
  next
    assume n: "ev_number e1 = 5"
    then have n2: "ev_number e2 = 5" using assms(3) by simp
    show ?thesis
      using assms(5)
      by (simp add: wheel_throttle_right [OF assms(1) n] wheel_throttle_right [OF assms(2) n2])
  qed
qed

theorem wheel_throttle_repeat_witness:
  "quantize 20000 = quantize 20001
    \<and> decode_loop hori_wheel_event wheel_init
     [ReadRecord \<lparr>ev_timestamp = 0, ev_value = 20000, ev_type = 2, ev_number = 2\<rparr>,
      ReadRecord \<lparr>ev_timestamp = 1, ev_value = 20001, ev_type = 2, ev_number = 2\<rparr>]
    = (Blocked_on_read, [Press (NSButton NSButton_LEFT_THROTTLE)])"
  using wheel_throttle_repeat [of "\<lparr>ev_timestamp = 0, ev_value = 20000, ev_type = 2, ev_number = 2\<rparr>"
      "\<lparr>ev_timestamp = 1, ev_value = 20001, ev_type = 2, ev_number = 2\<rparr>" wheel_init]
  by (simp add: quantize_div wheel_throttle_first wheel_init_def)

text \<open>
  C10. At any point of any run of the racing-wheel decoder, the cache of the steering
  axis still holds 128. An event of axis 0 makes no call when its quantized value is 128
  and otherwise calls \<^verbatim>\<open>leftXAxis\<close> with that value, leaving the caches unchanged:
  the same event sent twice makes the call twice.
\<close>

theorem wheel_steering_cache:
  assumes "loop_state hori_wheel_event wheel_init rs = Some s"
    and "ev_type e = 2" and "ev_number e = 0"
  defines "q \<equiv> quantize (ev_value e)"
  shows "last_wheel s = 128
    \<and> hori_wheel_event s e = Inr (s, if q = 128 then [] else [LeftXAxis q])
    \<and> read_hori_wheel (rs @ [ReadRecord e, ReadRecord e]) =
        (Blocked_on_read,
         snd (read_hori_wheel rs) @ (if q = 128 then [] else [LeftXAxis q, LeftXAxis q]))"
proof -
  have lw: "last_wheel s = 128"
    using loop_state_last_wheel [OF assms(1)] by (simp add: wheel_init_def)
  have ev: "hori_wheel_event s e = Inr (s, if q = 128 then [] else [LeftXAxis q])"
    using wheel_steering [OF assms(2,3), of s] lw by (simp add: q_def)
  show ?thesis
    using lw ev by (simp add: read_hori_wheel_def decode_loop_append [OF assms(1)])
qed

theorem wheel_steering_cache_witness:
  "read_hori_wheel
     [ReadRecord \<lparr>ev_timestamp = 0, ev_value = 0, ev_type = 2, ev_number = 0\<rparr>,
      ReadRecord \<lparr>ev_timestamp = 1, ev_value = 5000, ev_type = 2, ev_number = 0\<rparr>,
      ReadRecord \<lparr>ev_timestamp = 1, ev_value = 5000, ev_type = 2, ev_number = 0\<rparr>]
    = (Blocked_on_read, [LeftXAxis 147, LeftXAxis 147])"
proof -
  let ?centre = "\<lparr>ev_timestamp = 0, ev_value = 0, ev_type = 2, ev_number = 0\<rparr>"
  have st: "loop_state hori_wheel_event wheel_init [ReadRecord ?centre] = Some wheel_init"
    by (simp add: wheel_steering quantize_div wheel_init_def)
  have out: "read_hori_wheel [ReadRecord ?centre] = (Blocked_on_read, [])"
    by (simp add: read_hori_wheel_def wheel_steering quantize_div wheel_init_def)
  show ?thesis
    using wheel_steering_cache [OF st, of "\<lparr>ev_timestamp = 1, ev_value = 5000, ev_type = 2, ev_number = 0\<rparr>"]
    by (simp add: out quantize_div)
qed

section \<open>The registry\<close>

lemma reap_simps:
  "dr_count (reap h st) = dr_count st"
  "threads_started (reap h st) = threads_started st"
  "started (reap h st) = started st"
  "joysticks (reap h st) p =
     (case joysticks st p of None \<Rightarrow> None
      | Some thr \<Rightarrow> if is_alive h thr then Some thr else None)"
  by (simp_all add: reap_def)

lemma start_thread_simps:
  "dr_count (start_thread tg q st) = dr_count st"
  "threads_started (start_thread tg q st) = Suc (threads_started st)"
  "started (start_thread tg q st) =
     started st @ [\<lparr>thr_id = threads_started st, thr_target = tg, thr_jsdev = q\<rparr>]"
  "joysticks (start_thread tg q st) p =
     (if p = q then Some \<lparr>thr_id = threads_started st, thr_target = tg, thr_jsdev = q\<rparr>
      else joysticks st p)"
  by (simp_all add: start_thread_def Let_def)

lemma reap_init: "reap h registry_init = registry_init"
  by (simp add: reap_def registry_init_def)

lemma joysticks_init: "joysticks registry_init p = None"
  by (simp add: registry_init_def)



lemma match_name_started: "threads_started st \<le> threads_started (match_name name q st)"
  by (simp add: match_name_def start_thread_simps)




lemma and_one_odd: "((k :: int) AND 1) \<noteq> 0 \<longleftrightarrow> odd k"
  by (simp add: and_one_eq mod2_eq_if)

lemma match_name_dragon_rise:
  assumes "\<not> str_in ''HORIPAD'' name" and "str_in ''DRAGONRISE INC.'' name"
  shows "match_name name q st =
    (start_thread (Target_read_dragon_rise (odd (dr_count st))) q st)
      \<lparr>dr_count := dr_count st + 1\<rparr>"
  using assms by (simp add: match_name_def and_one_odd)





subsection \<open>The loop over the listing\<close>




lemma discover_Cons_cases:
  assumes "discover h (f # fns) st = Inr st'"
  obtains (skip) "discover h fns st = Inr st'"
  | (break) "st' = st"
  | (attach) name where "joysticks st (jspath f) = None"
      and "discover h fns (match_name name (jspath f) st) = Inr st'"
proof (cases "prefix ''js'' f \<and> joysticks st (jspath f) = None")
  case False
  then have "discover h (f # fns) st = discover h fns st"
    by (auto simp add: Let_def)
  then show ?thesis using assms skip by simp
next
  case cand: True
  show ?thesis
  proof (cases "open_ok h (jspath f)")
    case False
    then have "discover h (f # fns) st = Inr st"
      using cand by (simp add: Let_def)
    then show ?thesis using assms break by simp
  next
    case True
    show ?thesis
    proof (cases "jslongname h (jspath f)")
      case (Inl err)
      then have "discover h (f # fns) st = Inl err"
        using cand True by (simp add: Let_def)
      then show ?thesis using assms by simp
    next
      case (Inr name)
      then have "discover h (f # fns) st = discover h fns (match_name name (jspath f) st)"
        using cand True by (simp add: Let_def)
      then show ?thesis using assms attach [of name] cand by simp
    qed
  qed
qed



lemma discover_started:
  "discover h fns st = Inr st' \<Longrightarrow> threads_started st \<le> threads_started st'"
proof (induction fns arbitrary: st)
  case Nil
  then show ?case by simp
next
  case (Cons f fns)
  from Cons.prems(1) show ?case
  proof (cases rule: discover_Cons_cases)
    case skip
    then show ?thesis using Cons.IH by blast
  next
    case break
    then show ?thesis by simp
  next
    case (attach name)
    show ?thesis
      using Cons.IH [OF attach(2)] match_name_started [of st name "jspath f"] by simp
  qed
qed




subsection \<open>Thread numbers\<close>









subsection \<open>The history of started threads\<close>

lemma dr_roles_start_thread:
  "dr_roles (start_thread tg q st) = dr_roles st @ right_side_of tg"
  by (simp add: dr_roles_def start_thread_simps)

lemma dr_roles_dr_count: "dr_roles (st\<lparr>dr_count := k\<rparr>) = dr_roles st"
  by (simp add: dr_roles_def)

lemma history_ok_init: "history_ok registry_init"
  by (simp add: history_ok_def dr_roles_def registry_init_def)

lemma history_ok_reap: "history_ok st \<Longrightarrow> history_ok (reap h st)"
  by (auto simp add: history_ok_def dr_roles_def reap_simps split: option.splits if_splits)

lemma history_ok_other:
  assumes "history_ok st" and "right_side_of tg = []"
  shows "history_ok (start_thread tg q st)"
  using assms
  by (auto simp add: history_ok_def dr_roles_start_thread start_thread_simps)

lemma history_ok_dragon_rise:
  assumes "history_ok st"
  shows "history_ok ((start_thread (Target_read_dragon_rise ((dr_count st AND 1) \<noteq> 0)) q st)
            \<lparr>dr_count := dr_count st + 1\<rparr>)"
proof -
  let ?st' = "(start_thread (Target_read_dragon_rise ((dr_count st AND 1) \<noteq> 0)) q st)
            \<lparr>dr_count := dr_count st + 1\<rparr>"
  have count: "dr_count st = int (length (dr_roles st))"
    and roles: "dr_roles st = map odd [0..<length (dr_roles st)]"
    and ids: "map thr_id (started st) = [0..<threads_started st]"
    and tracked: "\<forall>p t. joysticks st p = Some t \<longrightarrow> t \<in> set (started st) \<and> thr_jsdev t = p"
    using assms by (simp_all add: history_ok_def)
  have side: "((dr_count st AND 1) \<noteq> 0) = odd (length (dr_roles st))"
    by (simp add: and_one_odd count)
  have roles': "dr_roles ?st' = dr_roles st @ [odd (length (dr_roles st))]"
    by (simp add: dr_roles_dr_count dr_roles_start_thread side)
  have "map odd [0..<length (dr_roles ?st')] = map odd [0..<length (dr_roles st)] @ [odd (length (dr_roles st))]"
    by (simp add: roles')
  then have alt: "dr_roles ?st' = map odd [0..<length (dr_roles ?st')]"
    using roles roles' by simp
  have len: "length (dr_roles ?st') = Suc (length (dr_roles st))"
    unfolding roles' by simp
  have "dr_count ?st' = dr_count st + 1"
    by simp
  also have "\<dots> = int (length (dr_roles st)) + 1"
    by (simp only: count)
  also have "\<dots> = int (length (dr_roles ?st'))"
    unfolding len by simp
  finally have "dr_count ?st' = int (length (dr_roles ?st'))" .
  moreover have "map thr_id (started ?st') = [0..<threads_started ?st']"
    using ids by (simp add: start_thread_simps)
  moreover have "\<forall>p t. joysticks ?st' p = Some t \<longrightarrow> t \<in> set (started ?st') \<and> thr_jsdev t = p"
    using tracked by (auto simp add: start_thread_simps)
  ultimately show ?thesis
    using alt unfolding history_ok_def by blast
qed

lemma history_ok_match_name: "history_ok st \<Longrightarrow> history_ok (match_name name q st)"
  by (simp add: match_name_def history_ok_other history_ok_dragon_rise)

lemma history_ok_discover:
  "discover h fns st = Inr st' \<Longrightarrow> history_ok st \<Longrightarrow> history_ok st'"
proof (induction fns arbitrary: st)
  case Nil
  then show ?case by simp
next
  case (Cons f fns)
  from Cons.prems(1) show ?case
  proof (cases rule: discover_Cons_cases)
    case skip
    then show ?thesis using Cons.IH Cons.prems(2) by blast
  next
    case break
    then show ?thesis using Cons.prems(2) by simp
  next
    case (attach name)
    show ?thesis
      using Cons.IH [OF attach(2)] history_ok_match_name [OF Cons.prems(2)] by simp
  qed
qed

lemma history_ok_poll_cycle: "poll_cycle h st = Inr st' \<Longrightarrow> history_ok st \<Longrightarrow> history_ok st'"
  unfolding poll_cycle_def by (erule history_ok_discover) (rule history_ok_reap)

lemma history_ok_main_loop: "main_loop hs st = Inr st' \<Longrightarrow> history_ok st \<Longrightarrow> history_ok st'"
proof (induction hs arbitrary: st)
  case Nil
  then show ?case by simp
next
  case (Cons h hs)
  then show ?case
    by (auto split: sum.splits dest: history_ok_poll_cycle)
qed

lemma dragon_rise_axes:
  "run_target (Target_read_dragon_rise False)
      [ReadRecord \<lparr>ev_timestamp = t, ev_value = x, ev_type = 2, ev_number = 0\<rparr>,
       ReadRecord \<lparr>ev_timestamp = t', ev_value = y, ev_type = 2, ev_number = 1\<rparr>]
     = (Blocked_on_read, [LeftXAxis (quantize x), LeftYAxis (quantize y)])"
  "run_target (Target_read_dragon_rise True)
      [ReadRecord \<lparr>ev_timestamp = t, ev_value = x, ev_type = 2, ev_number = 0\<rparr>,
       ReadRecord \<lparr>ev_timestamp = t', ev_value = y, ev_type = 2, ev_number = 1\<rparr>]
     = (Blocked_on_read, [RightXAxis (quantize x), RightYAxis (quantize y)])"
  by (simp_all add: read_dragon_rise_def dragon_rise_event_def)

section \<open>Roles of the arcade sticks\<close>

text \<open>
  C5. Take the registry at any point where it is about to test a device name: after any
  number of completed iterations and any part of the scan of the current listing. The
  \<^verbatim>\<open>right_side\<close> arguments of all arcade-stick threads started so far, in the order
  started, are false, true, false, true and so on: the roles alternate and begin with the
  left one, whatever other controllers were found in between and whichever threads have
  ended; the first stick ever found is the left side and the second the right side. The
  history is numbered in the order of starting and holds every tracked thread
  under the path it reads. A name that now reaches the Dragon Rise test and passes it
  starts the next thread of that sequence: it is tracked under the device's path with
  \<^verbatim>\<open>right_side\<close> true exactly when an odd number of arcade-stick threads were started
  before. The left side sends its axes 0 and 1 to \<^verbatim>\<open>leftXAxis\<close> and \<^verbatim>\<open>leftYAxis\<close>,
  the right side to \<^verbatim>\<open>rightXAxis\<close> and \<^verbatim>\<open>rightYAxis\<close>.
\<close>

theorem dragon_rise_roles:
  fixes q :: string
  assumes reach: "main_loop hs registry_init = Inr st0"
    and scan: "discover h fns (reap h st0) = Inr st"
    and dr: "\<not> str_in ''HORIPAD'' name" "str_in ''DRAGONRISE INC.'' name"
  defines "thr \<equiv> \<lparr>thr_id = threads_started st,
      thr_target = Target_read_dragon_rise (odd (length (dr_roles st))), thr_jsdev = q\<rparr>"
  shows "dr_roles st = map odd [0..<length (dr_roles st)]
    \<and> (0 < length (dr_roles st) \<longrightarrow> dr_roles st ! 0 = False)
    \<and> (1 < length (dr_roles st) \<longrightarrow> dr_roles st ! 1 = True)
    \<and> map thr_id (started st) = [0..<threads_started st]
    \<and> (\<forall>p t. joysticks st p = Some t \<longrightarrow> t \<in> set (started st) \<and> thr_jsdev t = p)
    \<and> joysticks (match_name name q st) q = Some thr
    \<and> started (match_name name q st) = started st @ [thr]
    \<and> dr_roles (match_name name q st) = dr_roles st @ [odd (length (dr_roles st))]
    \<and> run_target (Target_read_dragon_rise False)
        [ReadRecord \<lparr>ev_timestamp = t, ev_value = x, ev_type = 2, ev_number = 0\<rparr>,
         ReadRecord \<lparr>ev_timestamp = t', ev_value = y, ev_type = 2, ev_number = 1\<rparr>]
       = (Blocked_on_read, [LeftXAxis (quantize x), LeftYAxis (quantize y)])
    \<and> run_target (Target_read_dragon_rise True)
        [ReadRecord \<lparr>ev_timestamp = t, ev_value = x, ev_type = 2, ev_number = 0\<rparr>,
         ReadRecord \<lparr>ev_timestamp = t', ev_value = y, ev_type = 2, ev_number = 1\<rparr>]
       = (Blocked_on_read, [RightXAxis (quantize x), RightYAxis (quantize y)])"
proof -
  have "history_ok st0"
    using reach history_ok_init by (rule history_ok_main_loop)
  then have "history_ok (reap h st0)"
    by (rule history_ok_reap)
  with scan have ok: "history_ok st"
    by (rule history_ok_discover)
  then have count: "dr_count st = int (length (dr_roles st))"
    and roles: "dr_roles st = map odd [0..<length (dr_roles st)]"
    and ids: "map thr_id (started st) = [0..<threads_started st]"
    and tracked: "\<forall>p t. joysticks st p = Some t \<longrightarrow> t \<in> set (started st) \<and> thr_jsdev t = p"
    by (simp_all add: history_ok_def)
  have side: "odd (dr_count st) = odd (length (dr_roles st))"
    by (simp add: count)
  have step: "match_name name q st =
      (start_thread (Target_read_dragon_rise (odd (length (dr_roles st)))) q st)
        \<lparr>dr_count := dr_count st + 1\<rparr>"
    unfolding match_name_dragon_rise [OF dr] side ..
  have new: "joysticks (match_name name q st) q = Some thr"
    "started (match_name name q st) = started st @ [thr]"
    "dr_roles (match_name name q st) = dr_roles st @ [odd (length (dr_roles st))]"
    unfolding step by (simp_all add: start_thread_simps dr_roles_dr_count dr_roles_start_thread thr_def)
  have nth: "dr_roles st ! i = odd i" if "i < length (dr_roles st)" for i
    using that by (subst roles) simp
  have firsts: "0 < length (dr_roles st) \<longrightarrow> dr_roles st ! 0 = False"
    "1 < length (dr_roles st) \<longrightarrow> dr_roles st ! 1 = True"
    using nth [of 0] nth [of 1] by simp_all
  show ?thesis
    by (intro conjI roles firsts ids tracked new dragon_rise_axes)
qed

theorem dragon_rise_roles_witness:
  "\<exists>st. main_loop [] registry_init = Inr registry_init
     \<and> discover two_sticks [''js0''] (reap two_sticks registry_init) = Inr st
     \<and> dr_roles st = [False]
     \<and> map_option thr_target
          (joysticks (match_name ''DRAGONRISE INC.   GENERIC   USB  JOYSTICK'' ''/dev/input/js1'' st)
             ''/dev/input/js1'')
        = Some (Target_read_dragon_rise True)"
proof -
  let ?n = "''DRAGONRISE INC.   GENERIC   USB  JOYSTICK''"
  let ?st = "match_name ?n (jspath ''js0'') registry_init"
  have dr: "\<not> str_in ''HORIPAD'' ?n" "str_in ''DRAGONRISE INC.'' ?n"
    by simp_all
  have reach: "main_loop [] registry_init = Inr registry_init"
    by simp
  have scan: "discover two_sticks [''js0''] (reap two_sticks registry_init) = Inr ?st"
    by (simp add: reap_init joysticks_init two_sticks_def Let_def)
  have roles: "dr_roles ?st = [False]"
    unfolding match_name_dragon_rise [OF dr]
    by (simp add: dr_roles_dr_count dr_roles_start_thread) (simp add: dr_roles_def registry_init_def)
  have "joysticks (match_name ?n ''/dev/input/js1'' ?st) ''/dev/input/js1'' =
      Some \<lparr>thr_id = threads_started ?st,
        thr_target = Target_read_dragon_rise (odd (length (dr_roles ?st))),
        thr_jsdev = ''/dev/input/js1''\<rparr>"
    using dragon_rise_roles [OF reach scan dr, of "''/dev/input/js1''"] by blast
  then have "map_option thr_target (joysticks (match_name ?n ''/dev/input/js1'' ?st) ''/dev/input/js1'')
      = Some (Target_read_dragon_rise True)"
    unfolding roles by simp
  with reach scan roles show ?thesis
    by blast
qed

section \<open>Failures during discovery\<close>




section \<open>Reaping and re-discovery\<close>




end
